theory Spec2Isabelle
  imports Main "HOL-Library.Product_Lexorder" "HOL-Library.List_Lexorder"
    "HOL-Library.Char_ord" "HOL-Library.Sublist"
begin

section \<open>Data model (faculty/models.py)\<close>

text \<open>
  A \<open>datetime.time\<close> holds hour, minute, second and microsecond; the times of this
  program are naive (no time zone). A \<open>datetime.date\<close> holds year, month and day.
\<close>

record time =
  hour :: nat
  minute :: nat
  second :: nat
  microsecond :: nat

record date =
  year :: nat
  month :: nat
  day :: nat

text \<open>
  Python compares two naive times as the tuples (hour, minute, second, microsecond), and
  tuples lexicographically.
\<close>

definition time_key :: "time \<Rightarrow> nat \<times> nat \<times> nat \<times> nat" where
  "time_key t = (hour t, minute t, second t, microsecond t)"

definition time_lt :: "time \<Rightarrow> time \<Rightarrow> bool" where
  "time_lt a b = (time_key a < time_key b)"

definition time_gt :: "time \<Rightarrow> time \<Rightarrow> bool" where
  "time_gt a b = (time_key a > time_key b)"

definition time_ge :: "time \<Rightarrow> time \<Rightarrow> bool" where
  "time_ge a b = (time_key a \<ge> time_key b)"

text \<open>\<open>STATUS_CHOICES\<close> of the Session model.\<close>

datatype status = Scheduled | In_progress | Completed | Cancelled | Rescheduled

text \<open>
  The model instances, with the fields that the conflict checks and their messages read.
  A foreign key is held as the referenced instance; the ORM compares it by primary key.
  \<open>pk\<close> is \<open>None\<close> for an instance that has not been saved; every stored row
  has one.
\<close>

record Teacher =
  teacher_pk :: int
  first_name :: string
  last_name :: string

record Subject =
  subject_name :: string

record Session =
  pk :: "int option"
  teacher :: Teacher
  subject :: Subject
  date :: date
  day_of_week :: string
  start_time :: time
  end_time :: time
  status :: status

definition full_name :: "Teacher \<Rightarrow> string" where
  "full_name t = first_name t @ '' '' @ last_name t"

subsection \<open>Rendering of times and dates\<close>

text \<open>
  \<open>str\<close> of a time is its ISO format \<open>HH:MM:SS\<close>, followed by
  \<open>.ffffff\<close> when the microsecond is not zero; \<open>str\<close> of a date is
  \<open>YYYY-MM-DD\<close>. Every number is padded with zeros to its width, as
  \<open>%02d\<close>, \<open>%04d\<close> and \<open>%06d\<close> do.
\<close>

fun str_nat :: "nat \<Rightarrow> string" where
  "str_nat n = (if n < 10 then [''0123456789'' ! n]
                else str_nat (n div 10) @ [''0123456789'' ! (n mod 10)])"

declare str_nat.simps [simp del]

definition zfill :: "nat \<Rightarrow> string \<Rightarrow> string" where
  "zfill w s = replicate (w - length s) (CHR ''0'') @ s"

definition str_time :: "time \<Rightarrow> string" where
  "str_time t =
     zfill 2 (str_nat (hour t)) @ '':'' @ zfill 2 (str_nat (minute t)) @ '':'' @
     zfill 2 (str_nat (second t)) @
     (if microsecond t \<noteq> 0 then ''.'' @ zfill 6 (str_nat (microsecond t)) else [])"

definition str_date :: "date \<Rightarrow> string" where
  "str_date d =
     zfill 4 (str_nat (year d)) @ ''-'' @ zfill 2 (str_nat (month d)) @ ''-'' @
     zfill 2 (str_nat (day d))"

section \<open>The session table and its queries\<close>

text \<open>
  The table of stored sessions is a list of rows, in the order in which a query returns
  them. A query set is evaluated by one \<open>SELECT\<close>: it returns the rows that satisfy its
  conditions and hands the table back as it was.
\<close>

type_synonym table = "Session list"

definition select :: "(Session \<Rightarrow> bool) \<Rightarrow> table \<Rightarrow>
    Session list \<times> table" where
  "select cond db = (filter cond db, db)"

text \<open>
  \<open>Meta.ordering\<close> of Session is \<open>['-date', 'day_of_week', 'start_time']\<close>: a row
  comes before another when its date is later, or the dates are equal and its
  \<open>day_of_week\<close> and then its \<open>start_time\<close> are smaller. Strings compare by their
  characters' codes.
\<close>

definition date_key :: "date \<Rightarrow> nat \<times> nat \<times> nat" where
  "date_key d = (year d, month d, day d)"

definition ordered_before :: "Session \<Rightarrow> Session \<Rightarrow> bool" where
  "ordered_before a b =
     (date_key (date a) > date_key (date b) \<or>
      (date_key (date a) = date_key (date b) \<and>
       (day_of_week a, time_key (start_time a)) < (day_of_week b, time_key (start_time b))))"

text \<open>
  \<open>save\<close> of a new instance is an \<open>INSERT\<close> under a fresh primary key. Later queries
  return the new row at its place in the ordering: before the first row that it has to
  precede (among rows that the ordering does not separate the database is free).
\<close>

fun insert_row :: "Session \<Rightarrow> table \<Rightarrow> table" where
  "insert_row s [] = [s]"
| "insert_row s (x # xs) =
     (if ordered_before s x then s # x # xs else x # insert_row s xs)"

definition next_pk :: "table \<Rightarrow> int" where
  "next_pk db =
     fold (\<lambda>s m. case pk s of None \<Rightarrow> m | Some k \<Rightarrow> max m k) db 0 + 1"

definition save_new :: "Session \<Rightarrow> table \<Rightarrow> table" where
  "save_new s db = insert_row (s\<lparr>pk := Some (next_pk db)\<rparr>) db"

section \<open>Session.is\_conflicting (faculty/models.py)\<close>

text \<open>
  The query is \<open>filter(teacher=self.teacher, date=self.date, status='scheduled')\<close>
  followed by \<open>exclude(pk=self.pk)\<close>; the loop returns at the first overlapping row.
\<close>

fun is_conflicting_loop :: "Session \<Rightarrow> Session list \<Rightarrow> bool" where
  "is_conflicting_loop self [] = False"
| "is_conflicting_loop self (session # rest) =
     (if time_lt (start_time self) (end_time session) \<and>
         time_gt (end_time self) (start_time session)
      then True
      else is_conflicting_loop self rest)"

definition is_conflicting :: "Session \<Rightarrow> table \<Rightarrow> bool \<times> table" where
  "is_conflicting self db =
     (let (conflicts, db') =
            select (\<lambda>s. teacher_pk (teacher s) = teacher_pk (teacher self) \<and>
                        date s = date self \<and> status s = Scheduled \<and>
                        pk s \<noteq> pk self) db
      in (is_conflicting_loop self conflicts, db'))"

section \<open>SessionForm.clean (faculty/forms.py)\<close>

text \<open>
  \<open>cleaned_data.get\<close> gives \<open>None\<close> for a field that is absent or failed its own
  validation. A time, a date and a model instance are always true in a condition, so
  \<open>if teacher and date and start_time and end_time\<close> asks that the four are present.
\<close>

record cleaned_data =
  cd_teacher :: "Teacher option"
  cd_date :: "date option"
  cd_day_of_week :: "string option"
  cd_start_time :: "time option"
  cd_end_time :: "time option"

text \<open>
  A \<open>ValidationError\<close> is raised either with a dictionary of field errors or with one
  message for the whole form.
\<close>

datatype validation_error =
    ValidationError_dict "(string \<times> string) list"
  | ValidationError_msg string

definition conflict_message :: "Teacher \<Rightarrow> Session \<Rightarrow> string" where
  "conflict_message t session =
     ''Teacher '' @ full_name t @ '' already has a class scheduled '' @
     ''from '' @ str_time (start_time session) @ '' to '' @ str_time (end_time session) @
     '' on '' @ str_date (date session) @ ''.''"

fun clean_loop :: "Teacher \<Rightarrow> time \<Rightarrow> time \<Rightarrow> Session list \<Rightarrow>
    validation_error option" where
  "clean_loop t start end [] = None"
| "clean_loop t start end (session # rest) =
     (if time_lt start (end_time session) \<and> time_gt end (start_time session)
      then Some (ValidationError_msg (conflict_message t session))
      else clean_loop t start end rest)"

definition clean :: "int option \<Rightarrow> cleaned_data \<Rightarrow> table \<Rightarrow>
    (validation_error + cleaned_data) \<times> table" where
  "clean instance_pk cd db =
     (if (case (cd_start_time cd, cd_end_time cd) of
            (Some start, Some end) \<Rightarrow> time_ge start end
          | _ \<Rightarrow> False)
      then (Inl (ValidationError_dict
              [(''end_time'', ''End time must be after start time.'')]), db)
      else
        (case (cd_teacher cd, cd_date cd, cd_start_time cd, cd_end_time cd) of
           (Some t, Some d, Some start, Some end) \<Rightarrow>
             (let (conflicts, db') =
                    select (\<lambda>s. teacher_pk (teacher s) = teacher_pk t \<and>
                                date s = d \<and> status s = Scheduled \<and>
                                pk s \<noteq> instance_pk) db
              in (case clean_loop t start end conflicts of
                    Some err \<Rightarrow> (Inl err, db')
                  | None \<Rightarrow> (Inr cd, db')))
         | _ \<Rightarrow> (Inr cd, db)))"

section \<open>check\_session\_conflicts (faculty/views.py)\<close>

subsection \<open>Library conversions used by the view\<close>

text \<open>
  The exceptions the body of the view can raise, each with the text it was raised on:
  \<open>strptime\<close> finds no match of the format, or finds text after the match, and the ORM
  cannot convert a lookup value for a primary key to an integer. All three are
  \<open>ValueError\<close>s.
\<close>

datatype exn =
    ValueError_time_data string
  | ValueError_unconverted string
  | ValueError_field string

definition is_digit :: "char \<Rightarrow> bool" where
  "is_digit c = (c \<in> set ''0123456789'')"

definition digit_val :: "char \<Rightarrow> nat" where
  "digit_val c = of_char c - 48"

text \<open>
  \<open>datetime.strptime(s, '%H:%M')\<close> matches the regular expression
  \<open>(2[0-3]|[0-1]\d|\d):([0-5]\d|\d)\<close> at the start of \<open>s\<close>, trying the alternatives
  from left to right, and then refuses text left after the match. \<open>regex_H\<close> and
  \<open>regex_M\<close> list the matches of the two groups in the order the matcher tries them,
  each with the text that follows it. A character of a string is a code point below
  256; of these \<open>\d\<close> matches the ten ASCII digits only.
\<close>

definition regex_H :: "string \<Rightarrow> (nat \<times> string) list" where
  "regex_H s =
     (case s of
        c1 # c2 # r \<Rightarrow>
          (if c1 = CHR ''2'' \<and> c2 \<in> set ''0123'' then [(20 + digit_val c2, r)] else []) @
          (if c1 \<in> set ''01'' \<and> is_digit c2 then [(10 * digit_val c1 + digit_val c2, r)]
           else [])
      | _ \<Rightarrow> []) @
     (case s of
        c1 # r \<Rightarrow> if is_digit c1 then [(digit_val c1, r)] else []
      | _ \<Rightarrow> [])"

definition regex_M :: "string \<Rightarrow> (nat \<times> string) list" where
  "regex_M s =
     (case s of
        c1 # c2 # r \<Rightarrow>
          if c1 \<in> set ''012345'' \<and> is_digit c2 then [(10 * digit_val c1 + digit_val c2, r)]
          else []
      | _ \<Rightarrow> []) @
     (case s of
        c1 # r \<Rightarrow> if is_digit c1 then [(digit_val c1, r)] else []
      | _ \<Rightarrow> [])"

definition regex_HM :: "string \<Rightarrow> (nat \<times> nat \<times> string) list" where
  "regex_HM s =
     concat (map (\<lambda>(h, r).
        case r of
          c # r' \<Rightarrow> if c = CHR '':'' then map (\<lambda>(m, r''). (h, m, r'')) (regex_M r') else []
        | [] \<Rightarrow> []) (regex_H s))"

definition strptime_HM :: "string \<Rightarrow> exn + time" where
  "strptime_HM s =
     (case regex_HM s of
        [] \<Rightarrow> Inl (ValueError_time_data s)
      | (h, m, r) # _ \<Rightarrow>
          if r \<noteq> [] then Inl (ValueError_unconverted r)
          else Inr \<lparr>hour = h, minute = m, second = 0, microsecond = 0\<rparr>)"

text \<open>
  A lookup on a primary key converts its value with \<open>int\<close>: white space around the
  text is dropped, a sign may come first, and the digits may be separated by single
  underscores. Anything else raises. The white space of \<open>int\<close> is tab, line feed,
  vertical tab, form feed, carriage return and space, and of the code points from 128
  to 255 the next-line character and the no-break space.
\<close>

definition is_space :: "char \<Rightarrow> bool" where
  "is_space c = (of_char c \<in> set [9, 10, 11, 12, 13, 32, 133, 160 :: nat])"

definition strip :: "string \<Rightarrow> string" where
  "strip s = rev (dropWhile is_space (rev (dropWhile is_space s)))"

fun int_digits :: "nat \<Rightarrow> string \<Rightarrow> nat option" where
  "int_digits acc [] = Some acc"
| "int_digits acc [c] = (if is_digit c then Some (10 * acc + digit_val c) else None)"
| "int_digits acc (c # d # r) =
     (if is_digit c then int_digits (10 * acc + digit_val c) (d # r)
      else if c = CHR ''_'' \<and> is_digit d then int_digits (10 * acc + digit_val d) r
      else None)"

definition py_int :: "string \<Rightarrow> exn + int" where
  "py_int s =
     (let body = strip s;
          (negative, ds) =
            (case body of
               c # r \<Rightarrow> if c = CHR ''-'' then (True, r)
                        else if c = CHR ''+'' then (False, r)
                        else (False, body)
             | [] \<Rightarrow> (False, []))
      in case ds of
           d # r \<Rightarrow>
             if is_digit d
             then (case int_digits (digit_val d) r of
                     Some n \<Rightarrow> Inr (if negative then - int n else int n)
                   | None \<Rightarrow> Inl (ValueError_field s))
             else Inl (ValueError_field s)
         | [] \<Rightarrow> Inl (ValueError_field s))"

subsection \<open>The view\<close>

text \<open>
  A request has a method (\<open>request.method\<close>) and the query parameters;
  \<open>GET.get\<close> gives \<open>None\<close> for a parameter that is absent. A parameter is
  true in a condition when it is present and not the empty string.
\<close>

record request =
  request_method :: string
  GET :: "string \<Rightarrow> string option"

definition truthy :: "string option \<Rightarrow> bool" where
  "truthy v = (case v of None \<Rightarrow> False | Some s \<Rightarrow> s \<noteq> [])"

text \<open>
  The JSON object of the answer. Its message is a text of the view or, in the exception
  handler, \<open>str(e)\<close> of the exception caught.
\<close>

datatype message = Text string | Str_of_exception exn

record JsonResponse =
  has_conflict :: bool
  message :: message

definition conflict_with :: "Session \<Rightarrow> string" where
  "conflict_with session =
     ''Conflict with '' @ subject_name (subject session) @
     '' ('' @ str_time (start_time session) @ '' - '' @ str_time (end_time session) @ '')''"

fun conflicts_loop :: "time \<Rightarrow> time \<Rightarrow> Session list \<Rightarrow> JsonResponse" where
  "conflicts_loop start end [] =
     \<lparr>has_conflict = False, message = Text ''No conflicts found''\<rparr>"
| "conflicts_loop start end (session # rest) =
     (if time_lt start (end_time session) \<and> time_gt end (start_time session)
      then \<lparr>has_conflict = True, message = Text (conflict_with session)\<rparr>
      else conflicts_loop start end rest)"

text \<open>
  The body of the \<open>try\<close> block: every statement that can raise returns its exception
  as \<open>Inl\<close>, and the statements after it are not reached.
\<close>

definition try_block :: "string \<Rightarrow> string \<Rightarrow> string \<Rightarrow> string \<Rightarrow> string option \<Rightarrow>
    table \<Rightarrow> (exn + JsonResponse) \<times> table" where
  "try_block teacher_id dow start_time_str end_time_str exclude_id db =
     (case strptime_HM start_time_str of
        Inl e \<Rightarrow> (Inl e, db)
      | Inr start \<Rightarrow>
     (case strptime_HM end_time_str of
        Inl e \<Rightarrow> (Inl e, db)
      | Inr end \<Rightarrow>
     (case py_int teacher_id of
        Inl e \<Rightarrow> (Inl e, db)
      | Inr tid \<Rightarrow>
     (case (case exclude_id of
              None \<Rightarrow> Inr None
            | Some x \<Rightarrow> if x = [] then Inr None
                        else (case py_int x of Inl e \<Rightarrow> Inl e | Inr k \<Rightarrow> Inr (Some k))) of
        Inl e \<Rightarrow> (Inl e, db)
      | Inr excluded \<Rightarrow>
          (let (conflicts, db') =
                 select (\<lambda>s. teacher_pk (teacher s) = tid \<and> day_of_week s = dow \<and>
                             status s = Scheduled \<and>
                             (case excluded of None \<Rightarrow> True | Some k \<Rightarrow> pk s \<noteq> Some k)) db
           in (Inr (conflicts_loop start end conflicts), db'))))))"

text \<open>
  The view returns a response or propagates an exception to its caller (\<open>Inl\<close>);
  \<open>except Exception as e\<close> turns what the \<open>try\<close> block raised into a response.
\<close>

definition check_session_conflicts :: "request \<Rightarrow> table \<Rightarrow> (exn + JsonResponse) \<times> table" where
  "check_session_conflicts request db =
     (if request_method request = ''GET'' then
        (let teacher_id = GET request ''teacher_id'';
             dow = GET request ''day_of_week'';
             start_time_str = GET request ''start_time'';
             end_time_str = GET request ''end_time'';
             exclude_id = GET request ''exclude_id''
         in if \<not> list_all truthy [teacher_id, dow, start_time_str, end_time_str]
            then (Inr \<lparr>has_conflict = False, message = Text ''Incomplete data''\<rparr>, db)
            else
              (case (teacher_id, dow, start_time_str, end_time_str) of
                 (Some t, Some d, Some s, Some e) \<Rightarrow>
                   (case try_block t d s e exclude_id db of
                      (Inr response, db') \<Rightarrow> (Inr response, db')
                    | (Inl ex, db') \<Rightarrow>
                        (Inr \<lparr>has_conflict = False, message = Str_of_exception ex\<rparr>, db'))
               | _ \<Rightarrow> (Inr \<lparr>has_conflict = False, message = Text ''Incomplete data''\<rparr>, db)))
      else (Inr \<lparr>has_conflict = False, message = Text ''Invalid request''\<rparr>, db))"

section \<open>Submission of the scheduling form (faculty/views.py)\<close>

text \<open>
  \<open>SessionCreateView\<close> and \<open>SessionUpdateView\<close> take \<open>post\<close> from the generic editing
  views with \<open>SessionForm\<close> as their form. The form is valid when no field failed its
  own validation and \<open>clean\<close>, which runs in either case, raised nothing. Only a valid
  form reaches \<open>form_valid\<close>, which saves it; an invalid form is shown again with its
  errors. \<open>form.save\<close> writes to the table or raises a database error (the form has no
  field for the required \<open>duration\<close>, so the insert of a new session can be refused);
  what it does is a parameter.
\<close>

datatype db_error = IntegrityError

datatype post_result =
    Form_invalid "validation_error option"
  | Saved
  | Save_raised db_error

definition post :: "(int option \<Rightarrow> cleaned_data \<Rightarrow> table \<Rightarrow> db_error + table) \<Rightarrow> bool \<Rightarrow>
    int option \<Rightarrow> cleaned_data \<Rightarrow> table \<Rightarrow> post_result \<times> table" where
  "post form_save field_errors instance_pk cd db =
     (case clean instance_pk cd db of
        (Inl err, db') \<Rightarrow> (Form_invalid (Some err), db')
      | (Inr cd', db') \<Rightarrow>
          if field_errors then (Form_invalid None, db')
          else (case form_save instance_pk cd' db' of
                  Inl e \<Rightarrow> (Save_raised e, db')
                | Inr db'' \<Rightarrow> (Saved, db'')))"

section \<open>The seeding commands (faculty/management/commands)\<close>

text \<open>
  One iteration of a seeding loop draws a subject, a day and a time slot at random and
  derives the date of the session; after the conflict check it draws the status. A
  \<open>draw\<close> holds these values as the iteration has them when it reaches the conflict
  check, so the random generator is an input of the model.
\<close>

record draw =
  d_subject :: Subject
  d_day :: string
  d_start_time :: time
  d_end_time :: time
  d_session_date :: date
  d_status :: status

text \<open>
  The conflict query of both commands:
  \<open>filter(teacher=teacher, date=session_date, status='scheduled')\<close> followed by
  \<open>filter(start_time__lt=end_time, end_time__gt=start_time)\<close>.
\<close>

definition existing_conflicts :: "Teacher \<Rightarrow> date \<Rightarrow> time \<Rightarrow> time \<Rightarrow> table \<Rightarrow>
    Session list \<times> table" where
  "existing_conflicts t session_date start end db =
     select (\<lambda>s. (teacher_pk (teacher s) = teacher_pk t \<and> date s = session_date \<and>
                  status s = Scheduled) \<and>
                 (time_lt (start_time s) end \<and> time_gt (end_time s) start)) db"

definition new_session :: "Teacher \<Rightarrow> draw \<Rightarrow> Session" where
  "new_session t d =
     \<lparr>pk = None, teacher = t, subject = d_subject d, date = d_session_date d,
      day_of_week = d_day d, start_time = d_start_time d, end_time = d_end_time d,
      status = d_status d\<rparr>"

text \<open>
  \<open>create_sessions\<close> of create\_dummy\_data.py: \<open>for i in range(count)\<close>, with the
  teacher drawn as well; the list holds the draws of the iterations in order.
\<close>

fun create_sessions_loop :: "(Teacher \<times> draw) list \<Rightarrow> table \<Rightarrow> nat \<Rightarrow> table \<times> nat" where
  "create_sessions_loop [] db created_count = (db, created_count)"
| "create_sessions_loop ((t, d) # rest) db created_count =
     (case existing_conflicts t (d_session_date d) (d_start_time d) (d_end_time d) db of
        (conflicts, db') \<Rightarrow>
          if conflicts \<noteq> [] then create_sessions_loop rest db' created_count
          else create_sessions_loop rest (save_new (new_session t d) db') (created_count + 1))"

definition create_sessions :: "Teacher list \<Rightarrow> Subject list \<Rightarrow> (Teacher \<times> draw) list \<Rightarrow>
    table \<Rightarrow> table" where
  "create_sessions teachers subjects draws db =
     (if teachers = [] then db
      else if subjects = [] then db
      else fst (create_sessions_loop draws db 0))"

text \<open>
  \<open>create_sessions_per_teacher\<close> of create\_teacher\_sessions.py: for each teacher a
  \<open>while\<close> loop of at most \<open>sessions_per_teacher * 3\<close> attempts; \<open>draws n\<close> is the draw
  of the attempt that follows \<open>n\<close> earlier ones.
\<close>

function teacher_loop :: "nat \<Rightarrow> Teacher \<Rightarrow> (nat \<Rightarrow> draw) \<Rightarrow> nat \<Rightarrow> nat \<Rightarrow> table \<Rightarrow>
    table \<times> nat" where
  "teacher_loop sessions_per_teacher t draws created_for_teacher attempts db =
     (if created_for_teacher < sessions_per_teacher \<and> attempts < sessions_per_teacher * 3
      then
        (let d = draws attempts in
         case existing_conflicts t (d_session_date d) (d_start_time d) (d_end_time d) db of
           (conflicts, db') \<Rightarrow>
             if conflicts \<noteq> []
             then teacher_loop sessions_per_teacher t draws created_for_teacher
                    (attempts + 1) db'
             else teacher_loop sessions_per_teacher t draws (created_for_teacher + 1)
                    (attempts + 1) (save_new (new_session t d) db'))
      else (db, created_for_teacher))"
  by pat_completeness auto
termination
  by (relation "measure (\<lambda>(n, t, draws, created, attempts, db). n * 3 - attempts)") auto

declare teacher_loop.simps [simp del]

fun create_sessions_per_teacher :: "nat \<Rightarrow> (Teacher \<times> (nat \<Rightarrow> draw)) list \<Rightarrow> table \<Rightarrow> nat \<Rightarrow>
    table \<times> nat" where
  "create_sessions_per_teacher sessions_per_teacher [] db total_sessions =
     (db, total_sessions)"
| "create_sessions_per_teacher sessions_per_teacher ((t, draws) # rest) db total_sessions =
     (case teacher_loop sessions_per_teacher t draws 0 0 db of
        (db', created_for_teacher) \<Rightarrow>
          create_sessions_per_teacher sessions_per_teacher rest db'
            (total_sessions + created_for_teacher))"

section \<open>The conflict condition in the words of the specification\<close>

text \<open>
  A proposed assignment conflicts when a stored session has the same teacher and the
  same date, has status \<open>scheduled\<close>, is not the excluded session, and its half-open
  interval overlaps the proposed one: \<open>proposed_start < existing_end\<close> and
  \<open>existing_start < proposed_end\<close>.
\<close>

definition spec_overlap :: "time \<Rightarrow> time \<Rightarrow> Session \<Rightarrow> bool" where
  "spec_overlap proposed_start proposed_end existing =
     (time_lt proposed_start (end_time existing) \<and>
      time_lt (start_time existing) proposed_end)"

definition spec_has_conflict :: "int \<Rightarrow> date \<Rightarrow> time \<Rightarrow> time \<Rightarrow> int option \<Rightarrow> table \<Rightarrow> bool" where
  "spec_has_conflict teacher_id on_date proposed_start proposed_end excluded db =
     (\<exists>existing \<in> set db.
        teacher_pk (teacher existing) = teacher_id \<and> date existing = on_date \<and>
        status existing = Scheduled \<and> pk existing \<noteq> excluded \<and>
        spec_overlap proposed_start proposed_end existing)"

text \<open>
  Two stored sessions are in conflict when both are scheduled, have the same teacher
  and the same date, and their intervals overlap; a table is free of conflicts when no
  session is in conflict with a later one.
\<close>

definition clash :: "Session \<Rightarrow> Session \<Rightarrow> bool" where
  "clash a b =
     (teacher_pk (teacher a) = teacher_pk (teacher b) \<and> date a = date b \<and>
      status a = Scheduled \<and> status b = Scheduled \<and>
      spec_overlap (start_time a) (end_time a) b)"

fun conflict_free :: "table \<Rightarrow> bool" where
  "conflict_free [] = True"
| "conflict_free (x # xs) = ((\<forall>y \<in> set xs. \<not> clash x y) \<and> conflict_free xs)"

text \<open>
  The seeding routines check each candidate before they insert it and skip the
  candidates that conflict: a candidate conflicts when a stored scheduled session of
  its teacher on its date overlaps its slot.
\<close>

definition spec_candidate_conflicts :: "Teacher \<Rightarrow> draw \<Rightarrow> table \<Rightarrow> bool" where
  "spec_candidate_conflicts t d db =
     (\<exists>existing \<in> set db.
        teacher_pk (teacher existing) = teacher_pk t \<and>
        date existing = d_session_date d \<and> status existing = Scheduled \<and>
        spec_overlap (d_start_time d) (d_end_time d) existing)"

definition spec_seed :: "Teacher \<times> draw \<Rightarrow> table \<Rightarrow> table" where
  "spec_seed c db =
     (if spec_candidate_conflicts (fst c) (snd c) db then db
      else save_new (new_session (fst c) (snd c)) db)"

section \<open>Example data\<close>

definition hm :: "nat \<Rightarrow> nat \<Rightarrow> time" where
  "hm h m = \<lparr>hour = h, minute = m, second = 0, microsecond = 0\<rparr>"

definition ann :: Teacher where
  "ann = \<lparr>teacher_pk = 1, first_name = ''Ann'', last_name = ''Lee''\<rparr>"

definition physics :: Subject where
  "physics = \<lparr>subject_name = ''Physics''\<rparr>"

definition chemistry :: Subject where
  "chemistry = \<lparr>subject_name = ''Chemistry''\<rparr>"

definition march_4 :: date where
  "march_4 = \<lparr>year = 2024, month = 3, day = 4\<rparr>"

definition march_11 :: date where
  "march_11 = \<lparr>year = 2024, month = 3, day = 11\<rparr>"

text \<open>A stored session: Ann teaches physics on Monday 2024-03-04 from 09:00 to 10:00.\<close>

definition monday_9 :: Session where
  "monday_9 = \<lparr>pk = Some 1, teacher = ann, subject = physics, date = march_4,
     day_of_week = ''monday'', start_time = hm 9 0, end_time = hm 10 0,
     status = Scheduled\<rparr>"

text \<open>A second stored session of Ann on the same date, from 09:30 to 10:30.\<close>

definition monday_930 :: Session where
  "monday_930 = \<lparr>pk = Some 2, teacher = ann, subject = chemistry, date = march_4,
     day_of_week = ''monday'', start_time = hm 9 30, end_time = hm 10 30,
     status = Scheduled\<rparr>"

text \<open>The cleaned data of a form for Ann on a date, with a start and an end time.\<close>

definition form_data :: "date \<Rightarrow> time \<Rightarrow> time \<Rightarrow> cleaned_data" where
  "form_data d start end =
     \<lparr>cd_teacher = Some ann, cd_date = Some d, cd_day_of_week = Some ''monday'',
      cd_start_time = Some start, cd_end_time = Some end\<rparr>"

text \<open>A request to the view with the four required parameters and no \<open>exclude_id\<close>.\<close>

definition query :: "string \<Rightarrow> string \<Rightarrow> string \<Rightarrow> string \<Rightarrow> string \<Rightarrow> request" where
  "query m teacher_id dow start end =
     \<lparr>request_method = m,
      GET = [''teacher_id'' \<mapsto> teacher_id, ''day_of_week'' \<mapsto> dow,
             ''start_time'' \<mapsto> start, ''end_time'' \<mapsto> end]\<rparr>"


text \<open>A request in which \<open>end_time\<close> is missing.\<close>

definition query_without_end :: request where
  "query_without_end =
     \<lparr>request_method = ''GET'',
      GET = [''teacher_id'' \<mapsto> ''1'', ''day_of_week'' \<mapsto> ''monday'',
             ''start_time'' \<mapsto> ''09:00'']\<rparr>"



section \<open>Lemmas on the loops and queries\<close>

lemma time_ge_iff: "time_ge a b \<longleftrightarrow> \<not> time_lt a b"
  by (auto simp: time_ge_def time_lt_def)

lemma time_gt_iff: "time_gt a b \<longleftrightarrow> time_lt b a"
  by (simp add: time_gt_def time_lt_def)

lemma is_conflicting_loop_iff:
  "is_conflicting_loop self xs \<longleftrightarrow>
     (\<exists>s \<in> set xs. spec_overlap (start_time self) (end_time self) s)"
  by (induction xs) (auto simp: time_gt_iff spec_overlap_def)

lemma clean_loop_None_iff:
  "clean_loop t st en xs = None \<longleftrightarrow> \<not> (\<exists>s \<in> set xs. spec_overlap st en s)"
  by (induction xs) (auto simp: time_gt_iff spec_overlap_def)

lemma clean_loop_Some:
  "clean_loop t st en xs = Some err \<Longrightarrow>
     \<exists>s \<in> set xs. err = ValidationError_msg (conflict_message t s) \<and> spec_overlap st en s"
  by (induction xs) (auto simp: time_gt_iff spec_overlap_def split: if_splits)

lemma clean_conflict_iff:
  assumes "time_lt st en"
  shows "(\<exists>m. fst (clean ipk \<lparr>cd_teacher = Some t, cd_date = Some d, cd_day_of_week = w,
                 cd_start_time = Some st, cd_end_time = Some en\<rparr> db)
              = Inl (ValidationError_msg m))
     \<longleftrightarrow> spec_has_conflict (teacher_pk t) d st en ipk db"
  using assms
  apply (simp add: clean_def select_def time_ge_iff spec_has_conflict_def split: option.splits)
  apply (auto simp: clean_loop_None_iff dest!: clean_loop_Some)
  done

lemma is_conflicting_iff:
  "fst (is_conflicting self db) \<longleftrightarrow>
     spec_has_conflict (teacher_pk (teacher self)) (date self) (start_time self) (end_time self)
       (pk self) db"
  by (auto simp: is_conflicting_def select_def is_conflicting_loop_iff spec_has_conflict_def)

lemma conflicts_loop_cases:
  "(conflicts_loop st en xs = \<lparr>has_conflict = False, message = Text ''No conflicts found''\<rparr> \<and>
      \<not> (\<exists>x \<in> set xs. spec_overlap st en x)) \<or>
   (\<exists>x \<in> set xs. spec_overlap st en x \<and>
      conflicts_loop st en xs = \<lparr>has_conflict = True, message = Text (conflict_with x)\<rparr>)"
  by (induction xs) (auto simp: time_gt_iff spec_overlap_def)

lemma conflicts_loop_has_conflict:
  "has_conflict (conflicts_loop st en xs) \<longleftrightarrow> (\<exists>x \<in> set xs. spec_overlap st en x)"
  by (induction xs) (auto simp: time_gt_iff spec_overlap_def)

lemma snd_try_block: "snd (try_block t d s e x db) = db"
  by (simp add: try_block_def select_def split: sum.splits option.splits)

lemma try_block_table: "try_block t d s e x db = (r, db') \<Longrightarrow> db' = db"
  using snd_try_block [of t d s e x db] by simp

lemma try_block_Inr_shape:
  assumes "fst (try_block t d s e x db) = Inr r"
  shows "\<exists>start en tid excluded.
           strptime_HM s = Inr start \<and> strptime_HM e = Inr en \<and> py_int t = Inr tid \<and>
           (case x of None \<Rightarrow> Inr None
            | Some xs \<Rightarrow> if xs = [] then Inr None
                        else (case py_int xs of Inl ex \<Rightarrow> Inl ex | Inr k \<Rightarrow> Inr (Some k)))
             = Inr excluded \<and>
           r = conflicts_loop start en
                 (filter (\<lambda>y. teacher_pk (teacher y) = tid \<and> day_of_week y = d \<and>
                              status y = Scheduled \<and>
                              (case excluded of None \<Rightarrow> True | Some k \<Rightarrow> pk y \<noteq> Some k)) db)"
proof -
  obtain start where a: "strptime_HM s = Inr start"
    using assms by (cases "strptime_HM s") (simp_all add: try_block_def)
  obtain en where b: "strptime_HM e = Inr en"
    using assms a by (cases "strptime_HM e") (simp_all add: try_block_def)
  obtain tid where c: "py_int t = Inr tid"
    using assms a b by (cases "py_int t") (simp_all add: try_block_def)
  let ?ex = "case x of None \<Rightarrow> Inr None
            | Some xs \<Rightarrow> if xs = [] then Inr None
                        else (case py_int xs of Inl ex \<Rightarrow> Inl ex | Inr k \<Rightarrow> Inr (Some k))"
  obtain excluded where d: "?ex = Inr excluded"
    using assms a b c by (cases ?ex) (simp_all add: try_block_def)
  from assms a b c d show ?thesis
    by (simp add: try_block_def select_def)
qed

lemma try_block_has_conflict:
  assumes "fst (try_block t d s e x db) = Inr r" "has_conflict r"
  shows "\<exists>start en tid. strptime_HM s = Inr start \<and> strptime_HM e = Inr en \<and>
           py_int t = Inr tid \<and>
           (\<exists>y \<in> set db. teacher_pk (teacher y) = tid \<and> day_of_week y = d \<and>
               status y = Scheduled \<and> spec_overlap start en y \<and>
               r = \<lparr>has_conflict = True, message = Text (conflict_with y)\<rparr>)"
proof -
  from try_block_Inr_shape [OF assms(1)] obtain start en tid excluded where
    p: "strptime_HM s = Inr start" "strptime_HM e = Inr en" "py_int t = Inr tid"
    and r: "r = conflicts_loop start en
                 (filter (\<lambda>y. teacher_pk (teacher y) = tid \<and> day_of_week y = d \<and>
                              status y = Scheduled \<and>
                              (case excluded of None \<Rightarrow> True | Some k \<Rightarrow> pk y \<noteq> Some k)) db)"
    by blast
  let ?xs = "filter (\<lambda>y. teacher_pk (teacher y) = tid \<and> day_of_week y = d \<and>
                              status y = Scheduled \<and>
                              (case excluded of None \<Rightarrow> True | Some k \<Rightarrow> pk y \<noteq> Some k)) db"
  from conflicts_loop_cases [of start en ?xs] assms(2) r
  obtain y where "y \<in> set ?xs" "spec_overlap start en y"
    "r = \<lparr>has_conflict = True, message = Text (conflict_with y)\<rparr>"
    by auto
  with p show ?thesis by auto
qed

lemma time_lt_irrefl: "\<not> time_lt a a"
  by (simp add: time_lt_def)

lemma adjacent_no_overlap:
  "proposed_start = end_time s \<or> proposed_end = start_time s \<Longrightarrow>
     \<not> spec_overlap proposed_start proposed_end s"
  by (auto simp: spec_overlap_def time_lt_irrefl)

lemma clean_no_conflict:
  assumes "time_lt st en" "\<not> spec_has_conflict (teacher_pk t) d st en ipk db"
  shows "fst (clean ipk \<lparr>cd_teacher = Some t, cd_date = Some d, cd_day_of_week = w,
                 cd_start_time = Some st, cd_end_time = Some en\<rparr> db)
         = Inr \<lparr>cd_teacher = Some t, cd_date = Some d, cd_day_of_week = w,
                 cd_start_time = Some st, cd_end_time = Some en\<rparr>"
proof -
  let ?xs = "filter (\<lambda>s. teacher_pk (teacher s) = teacher_pk t \<and> date s = d \<and>
                status s = Scheduled \<and> pk s \<noteq> ipk) db"
  from assms(2) have "clean_loop t st en ?xs = None"
    by (auto simp: clean_loop_None_iff spec_has_conflict_def)
  with assms(1) show ?thesis
    by (simp add: clean_def select_def time_ge_iff)
qed

lemma snd_clean: "snd (clean instance_pk cd db) = db"
  by (simp add: clean_def select_def split: option.splits)

lemma conflict_message_names:
  "sublist (full_name t) (conflict_message t s) \<and>
   sublist (str_time (start_time s)) (conflict_message t s) \<and>
   sublist (str_time (end_time s)) (conflict_message t s) \<and>
   sublist (str_date (date s)) (conflict_message t s)"
proof -
  let ?m = "conflict_message t s"
  have "?m = ''Teacher '' @ full_name t @
      ('' already has a class scheduled from '' @ str_time (start_time s) @ '' to '' @
       str_time (end_time s) @ '' on '' @ str_date (date s) @ ''.'')"
    by (simp add: conflict_message_def)
  then have 1: "sublist (full_name t) ?m"
    by (metis sublist_appendI)
  have "?m = (''Teacher '' @ full_name t @ '' already has a class scheduled from'' @ '' '') @
      str_time (start_time s) @
      ('' to '' @ str_time (end_time s) @ '' on '' @ str_date (date s) @ ''.'')"
    by (simp add: conflict_message_def)
  then have 2: "sublist (str_time (start_time s)) ?m"
    by (metis sublist_appendI)
  have "?m = (''Teacher '' @ full_name t @ '' already has a class scheduled from '' @
       str_time (start_time s) @ '' to '') @
      str_time (end_time s) @ ('' on '' @ str_date (date s) @ ''.'')"
    by (simp add: conflict_message_def)
  then have 3: "sublist (str_time (end_time s)) ?m"
    by (metis sublist_appendI)
  have "?m = (''Teacher '' @ full_name t @ '' already has a class scheduled from '' @
       str_time (start_time s) @ '' to '' @ str_time (end_time s) @ '' on '') @
       str_date (date s) @ ''.''"
    by (simp add: conflict_message_def)
  then have 4: "sublist (str_date (date s)) ?m"
    by (metis sublist_appendI)
  from 1 2 3 4 show ?thesis by simp
qed




lemma clean_loop_first:
  "clean_loop t st en (filter P db) = Some err \<Longrightarrow>
     \<exists>before s after. db = before @ s # after \<and> P s \<and> spec_overlap st en s \<and>
        (\<forall>y \<in> set before. \<not> (P y \<and> spec_overlap st en y)) \<and>
        err = ValidationError_msg (conflict_message t s)"
proof (induction db)
  case Nil
  then show ?case by simp
next
  case (Cons x xs)
  show ?case
  proof (cases "P x \<and> spec_overlap st en x")
    case True
    with Cons.prems have "err = ValidationError_msg (conflict_message t x)"
      by (simp add: spec_overlap_def time_gt_iff)
    with True have "x # xs = [] @ x # xs \<and> P x \<and> spec_overlap st en x \<and>
        (\<forall>y \<in> set []. \<not> (P y \<and> spec_overlap st en y)) \<and>
        err = ValidationError_msg (conflict_message t x)"
      by simp
    then show ?thesis by blast
  next
    case False
    with Cons.prems have "clean_loop t st en (filter P xs) = Some err"
      by (auto simp: spec_overlap_def time_gt_iff split: if_splits)
    from Cons.IH [OF this] obtain before s after where
      "xs = before @ s # after" "P s" "spec_overlap st en s"
      "\<forall>y \<in> set before. \<not> (P y \<and> spec_overlap st en y)"
      "err = ValidationError_msg (conflict_message t s)"
      by blast
    with False have "x # xs = (x # before) @ s # after \<and> P s \<and> spec_overlap st en s \<and>
        (\<forall>y \<in> set (x # before). \<not> (P y \<and> spec_overlap st en y)) \<and>
        err = ValidationError_msg (conflict_message t s)"
      by simp
    then show ?thesis by blast
  qed
qed

lemma clean_conflict_first:
  assumes "fst (clean ipk cd db) = Inl (ValidationError_msg m)"
  shows "\<exists>t d st en before s after.
           cd_teacher cd = Some t \<and> cd_date cd = Some d \<and>
           cd_start_time cd = Some st \<and> cd_end_time cd = Some en \<and>
           db = before @ s # after \<and>
           \<not> spec_has_conflict (teacher_pk t) d st en ipk before \<and>
           teacher_pk (teacher s) = teacher_pk t \<and> date s = d \<and>
           status s = Scheduled \<and> pk s \<noteq> ipk \<and> spec_overlap st en s \<and>
           m = conflict_message t s"
proof -
  from assms obtain t d st en where
    c: "cd_teacher cd = Some t" "cd_date cd = Some d" "cd_start_time cd = Some st"
      "cd_end_time cd = Some en"
    and l: "clean_loop t st en
        (filter (\<lambda>s. teacher_pk (teacher s) = teacher_pk t \<and> date s = d \<and>
                     status s = Scheduled \<and> pk s \<noteq> ipk) db)
        = Some (ValidationError_msg m)"
    by (auto simp: clean_def select_def split: if_splits option.splits)
  from clean_loop_first [OF l] obtain before s after where
    "db = before @ s # after"
    "teacher_pk (teacher s) = teacher_pk t \<and> date s = d \<and> status s = Scheduled \<and> pk s \<noteq> ipk"
    "spec_overlap st en s"
    "\<forall>y \<in> set before. \<not> ((teacher_pk (teacher y) = teacher_pk t \<and> date y = d \<and>
         status y = Scheduled \<and> pk y \<noteq> ipk) \<and> spec_overlap st en y)"
    "m = conflict_message t s"
    by auto
  with c show ?thesis
    unfolding spec_has_conflict_def by blast
qed

lemma teacher_loop_exit:
  "\<not> (created < n \<and> attempts < n * 3) \<Longrightarrow>
     teacher_loop n t draws created attempts db = (db, created)"
  by (subst teacher_loop.simps) auto

lemma teacher_loop_step:
  "created < n \<Longrightarrow> attempts < n * 3 \<Longrightarrow>
     teacher_loop n t draws created attempts db =
       (if fst (existing_conflicts t (d_session_date (draws attempts))
                  (d_start_time (draws attempts)) (d_end_time (draws attempts)) db) \<noteq> []
        then teacher_loop n t draws created (attempts + 1) db
        else teacher_loop n t draws (created + 1) (attempts + 1)
               (save_new (new_session t (draws attempts)) db))"
  by (subst teacher_loop.simps) (simp add: existing_conflicts_def select_def)

lemma existing_conflicts_iff:
  "fst (existing_conflicts t (d_session_date d) (d_start_time d) (d_end_time d) db) \<noteq> []
     \<longleftrightarrow> spec_candidate_conflicts t d db"
  by (auto simp: existing_conflicts_def select_def spec_candidate_conflicts_def
      spec_overlap_def time_gt_iff filter_empty_conv)

lemma length_insert_row: "length (insert_row s db) = Suc (length db)"
  by (induction db) auto

lemma set_insert_row: "set (insert_row s db) = insert s (set db)"
  by (induction db) auto

lemma length_save_new: "length (save_new s db) = Suc (length db)"
  by (simp add: save_new_def length_insert_row)

lemma spec_seed_pair:
  "spec_seed (t, d) db =
     (if spec_candidate_conflicts t d db then db else save_new (new_session t d) db)"
  by (simp add: spec_seed_def)

lemma length_spec_seed: "length db \<le> length (spec_seed c db)"
  by (simp add: spec_seed_def length_save_new)

lemma length_fold_spec_seed: "length db \<le> length (fold spec_seed cs db)"
proof (induction cs arbitrary: db)
  case Nil
  then show ?case by simp
next
  case (Cons c cs)
  from Cons.IH [of "spec_seed c db"] length_spec_seed [of db c] show ?case
    by simp
qed

lemma create_sessions_loop_fold:
  "create_sessions_loop draws db n =
     (fold spec_seed draws db, n + (length (fold spec_seed draws db) - length db))"
proof (induction draws db n rule: create_sessions_loop.induct)
  case (1 db created_count)
  then show ?case by simp
next
  case (2 t d rest db created_count)
  show ?case
  proof (cases "spec_candidate_conflicts t d db")
    case True
    with 2 existing_conflicts_iff [of t d db] show ?thesis
      by (simp add: existing_conflicts_def select_def spec_seed_pair)
  next
    case False
    let ?db = "save_new (new_session t d) db"
    from False 2 existing_conflicts_iff [of t d db]
    have "create_sessions_loop ((t, d) # rest) db created_count =
        (fold spec_seed rest ?db, created_count + 1 + (length (fold spec_seed rest ?db) - length ?db))"
      by (simp add: existing_conflicts_def select_def)
    with False length_fold_spec_seed [of ?db rest] show ?thesis
      by (simp add: spec_seed_pair length_save_new)
  qed
qed

lemma teacher_loop_runs:
  assumes "created \<le> n" "attempts \<le> n * 3"
  shows "\<exists>k. attempts + k \<le> n * 3 \<and>
           fst (teacher_loop n t ds created attempts db)
             = fold spec_seed (map (\<lambda>i. (t, ds i)) [attempts..<attempts + k]) db \<and>
           snd (teacher_loop n t ds created attempts db)
             = created + (length (fst (teacher_loop n t ds created attempts db)) - length db) \<and>
           snd (teacher_loop n t ds created attempts db) \<le> n \<and>
           (snd (teacher_loop n t ds created attempts db) = n \<or> attempts + k = n * 3)"
  using assms
proof (induction "n * 3 - attempts" arbitrary: attempts created db)
  case 0
  then have "teacher_loop n t ds created attempts db = (db, created)"
    by (simp add: teacher_loop_exit)
  with 0 have "attempts + 0 \<le> n * 3 \<and>
           fst (teacher_loop n t ds created attempts db)
             = fold spec_seed (map (\<lambda>i. (t, ds i)) [attempts..<attempts + 0]) db \<and>
           snd (teacher_loop n t ds created attempts db)
             = created + (length (fst (teacher_loop n t ds created attempts db)) - length db) \<and>
           snd (teacher_loop n t ds created attempts db) \<le> n \<and>
           (snd (teacher_loop n t ds created attempts db) = n \<or> attempts + 0 = n * 3)"
    by simp
  then show ?case by blast
next
  case (Suc m)
  show ?case
  proof (cases "created < n")
    case False
    with Suc.prems have "teacher_loop n t ds created attempts db = (db, created)"
      by (simp add: teacher_loop_exit)
    with False Suc.prems have "attempts + 0 \<le> n * 3 \<and>
           fst (teacher_loop n t ds created attempts db)
             = fold spec_seed (map (\<lambda>i. (t, ds i)) [attempts..<attempts + 0]) db \<and>
           snd (teacher_loop n t ds created attempts db)
             = created + (length (fst (teacher_loop n t ds created attempts db)) - length db) \<and>
           snd (teacher_loop n t ds created attempts db) \<le> n \<and>
           (snd (teacher_loop n t ds created attempts db) = n \<or> attempts + 0 = n * 3)"
      by simp
    then show ?thesis by blast
  next
    case run: True
    from Suc.hyps(2) have lt: "attempts < n * 3" and m: "m = n * 3 - (attempts + 1)"
      by simp_all
    let ?d = "ds attempts"
    have up: "[attempts..<attempts + Suc k] = attempts # [attempts + 1..<attempts + 1 + k]" for k
      by (simp add: upt_conv_Cons)
    show ?thesis
    proof (cases "spec_candidate_conflicts t ?d db")
      case True
      have step: "teacher_loop n t ds created attempts db
          = teacher_loop n t ds created (attempts + 1) db"
        using run lt True existing_conflicts_iff [of t ?d db]
        by (simp add: teacher_loop_step)
      have lt1: "attempts + 1 \<le> n * 3"
        using lt by simp
      from Suc.hyps(1) [OF m Suc.prems(1) lt1, of db]
      obtain k where k: "attempts + 1 + k \<le> n * 3"
        "fst (teacher_loop n t ds created (attempts + 1) db)
           = fold spec_seed (map (\<lambda>i. (t, ds i)) [attempts + 1..<attempts + 1 + k]) db"
        "snd (teacher_loop n t ds created (attempts + 1) db)
           = created + (length (fst (teacher_loop n t ds created (attempts + 1) db)) - length db)"
        "snd (teacher_loop n t ds created (attempts + 1) db) \<le> n"
        "snd (teacher_loop n t ds created (attempts + 1) db) = n \<or> attempts + 1 + k = n * 3"
        by blast
      from k True have "attempts + Suc k \<le> n * 3 \<and>
           fst (teacher_loop n t ds created attempts db)
             = fold spec_seed (map (\<lambda>i. (t, ds i)) [attempts..<attempts + Suc k]) db \<and>
           snd (teacher_loop n t ds created attempts db)
             = created + (length (fst (teacher_loop n t ds created attempts db)) - length db) \<and>
           snd (teacher_loop n t ds created attempts db) \<le> n \<and>
           (snd (teacher_loop n t ds created attempts db) = n \<or> attempts + Suc k = n * 3)"
        unfolding step up by (simp add: spec_seed_pair)
      then show ?thesis by blast
    next
      case False
      let ?db = "save_new (new_session t ?d) db"
      have step: "teacher_loop n t ds created attempts db
          = teacher_loop n t ds (created + 1) (attempts + 1) ?db"
        using run lt False existing_conflicts_iff [of t ?d db]
        by (simp add: teacher_loop_step)
      have lt1: "attempts + 1 \<le> n * 3" and c1: "created + 1 \<le> n"
        using lt run by simp_all
      from Suc.hyps(1) [OF m c1 lt1, of ?db]
      obtain k where k: "attempts + 1 + k \<le> n * 3"
        "fst (teacher_loop n t ds (created + 1) (attempts + 1) ?db)
           = fold spec_seed (map (\<lambda>i. (t, ds i)) [attempts + 1..<attempts + 1 + k]) ?db"
        "snd (teacher_loop n t ds (created + 1) (attempts + 1) ?db)
           = created + 1 +
             (length (fst (teacher_loop n t ds (created + 1) (attempts + 1) ?db)) - length ?db)"
        "snd (teacher_loop n t ds (created + 1) (attempts + 1) ?db) \<le> n"
        "snd (teacher_loop n t ds (created + 1) (attempts + 1) ?db) = n \<or>
           attempts + 1 + k = n * 3"
        by blast
      have len: "length ?db \<le> length (fst (teacher_loop n t ds (created + 1) (attempts + 1) ?db))"
        unfolding k(2) by (rule length_fold_spec_seed)
      from k False len have "attempts + Suc k \<le> n * 3 \<and>
           fst (teacher_loop n t ds created attempts db)
             = fold spec_seed (map (\<lambda>i. (t, ds i)) [attempts..<attempts + Suc k]) db \<and>
           snd (teacher_loop n t ds created attempts db)
             = created + (length (fst (teacher_loop n t ds created attempts db)) - length db) \<and>
           snd (teacher_loop n t ds created attempts db) \<le> n \<and>
           (snd (teacher_loop n t ds created attempts db) = n \<or> attempts + Suc k = n * 3)"
        unfolding step up by (simp add: spec_seed_pair length_save_new)
      then show ?thesis by blast
    qed
  qed
qed

section \<open>The conflict check decides the overlap condition\<close>

text \<open>
  C1. For a proposed assignment with \<open>start_time < end_time\<close> and any stored sessions,
  the validation of the form raises its conflict error, and \<open>is_conflicting\<close> returns
  true, exactly when some stored session has the same teacher and date, is scheduled,
  is not the excluded session and overlaps the proposed half-open interval.
\<close>

theorem conflict_check_iff:
  assumes "time_lt proposed_start proposed_end"
  shows "((\<exists>m. fst (clean excluded
              \<lparr>cd_teacher = Some t, cd_date = Some d, cd_day_of_week = w,
               cd_start_time = Some proposed_start, cd_end_time = Some proposed_end\<rparr> db)
            = Inl (ValidationError_msg m))
          \<longleftrightarrow> spec_has_conflict (teacher_pk t) d proposed_start proposed_end excluded db) \<and>
         (fst (is_conflicting
              \<lparr>pk = excluded, teacher = t, subject = sj, date = d, day_of_week = dw,
               start_time = proposed_start, end_time = proposed_end, status = st\<rparr> db)
          \<longleftrightarrow> spec_has_conflict (teacher_pk t) d proposed_start proposed_end excluded db)"
  using clean_conflict_iff [OF assms] by (simp add: is_conflicting_iff)

theorem conflict_check_iff_witness:
  "time_lt (hm 9 30) (hm 10 30) \<and>
   spec_has_conflict 1 march_4 (hm 9 30) (hm 10 30) None [monday_9] \<and>
   (\<exists>m. fst (clean None (form_data march_4 (hm 9 30) (hm 10 30)) [monday_9])
          = Inl (ValidationError_msg m)) \<and>
   fst (is_conflicting
          \<lparr>pk = None, teacher = ann, subject = physics, date = march_4,
           day_of_week = ''monday'', start_time = hm 9 30, end_time = hm 10 30,
           status = Scheduled\<rparr> [monday_9])"
proof -
  have wf: "time_lt (hm 9 30) (hm 10 30)"
    by (simp add: time_lt_def time_key_def hm_def)
  have sp: "spec_has_conflict 1 march_4 (hm 9 30) (hm 10 30) None [monday_9]"
    by (simp add: spec_has_conflict_def spec_overlap_def time_lt_def time_key_def
        hm_def ann_def march_4_def monday_9_def)
  have tp: "teacher_pk ann = 1"
    by (simp add: ann_def)
  from conflict_check_iff [OF wf, of None ann march_4 "Some ''monday''" "[monday_9]" physics
      "''monday''" Scheduled] sp wf
  show ?thesis
    by (simp add: form_data_def tp)
qed

section \<open>The form and the view\<close>

text \<open>
  C2. The form and the view are meant to give the same answer. They do not: the form
  looks at the stored sessions of the proposed date, the view at those with the same
  \<open>day_of_week\<close> on any date. With a session stored for Monday 2024-03-04 from 09:00
  to 10:00, the form accepts the same teacher and slot on Monday 2024-03-11, and the
  view reports a conflict for that teacher, day and slot.
\<close>

theorem form_and_view_disagree:
  "fst (clean None (form_data march_11 (hm 9 0) (hm 10 0)) [monday_9])
     = Inr (form_data march_11 (hm 9 0) (hm 10 0)) \<and>
   fst (check_session_conflicts (query ''GET'' ''1'' ''monday'' ''09:00'' ''10:00'') [monday_9])
     = Inr \<lparr>has_conflict = True,
            message = Text ''Conflict with Physics (09:00:00 - 10:00:00)''\<rparr>"
  by code_simp

section \<open>The view answers every request\<close>

text \<open>
  C3. When one of the required parameters \<open>teacher_id\<close>, \<open>day_of_week\<close>,
  \<open>start_time\<close>, \<open>end_time\<close> is missing, the view raises nothing and answers with
  \<open>has_conflict = false\<close>.
\<close>

theorem missing_parameter_no_conflict:
  assumes "k \<in> set [''teacher_id'', ''day_of_week'', ''start_time'', ''end_time'']"
    and "GET request k = None"
  shows "fst (check_session_conflicts request db) =
     Inr \<lparr>has_conflict = False,
          message = Text (if request_method request = ''GET'' then ''Incomplete data''
                          else ''Invalid request'')\<rparr>"
  using assms by (auto simp: check_session_conflicts_def Let_def truthy_def)

theorem missing_parameter_no_conflict_witness:
  "''end_time'' \<in> set [''teacher_id'', ''day_of_week'', ''start_time'', ''end_time''] \<and>
   GET query_without_end ''end_time'' = None \<and>
   fst (check_session_conflicts query_without_end [monday_9])
     = Inr \<lparr>has_conflict = False, message = Text ''Incomplete data''\<rparr>"
proof -
  have k: "''end_time'' \<in> set [''teacher_id'', ''day_of_week'', ''start_time'', ''end_time'']"
    by simp
  have g: "GET query_without_end ''end_time'' = None"
    by (simp add: query_without_end_def)
  from missing_parameter_no_conflict [OF k g, of "[monday_9]"] k g show ?thesis
    by (simp add: query_without_end_def)
qed

text \<open>
  C4. For every request the view returns a response and propagates no exception. The
  response reports a conflict only when the request is a GET whose parameters are all
  present, the two times and the teacher id could be converted, and a stored scheduled
  session of that teacher and day overlaps; a request with another method, a time that
  does not parse, or a teacher id that is no number or has no session, is answered
  with \<open>has_conflict = false\<close>.
\<close>

theorem view_always_responds:
  "\<exists>r. fst (check_session_conflicts request db) = Inr r \<and>
     (has_conflict r \<longrightarrow>
        request_method request = ''GET'' \<and>
        (\<exists>t d s e start en tid.
           GET request ''teacher_id'' = Some t \<and> GET request ''day_of_week'' = Some d \<and>
           GET request ''start_time'' = Some s \<and> GET request ''end_time'' = Some e \<and>
           strptime_HM s = Inr start \<and> strptime_HM e = Inr en \<and> py_int t = Inr tid \<and>
           (\<exists>y \<in> set db. teacher_pk (teacher y) = tid \<and> day_of_week y = d \<and>
               status y = Scheduled \<and> spec_overlap start en y \<and>
               r = \<lparr>has_conflict = True, message = Text (conflict_with y)\<rparr>)))"
proof (cases "request_method request = ''GET'' \<and>
    list_all truthy [GET request ''teacher_id'', GET request ''day_of_week'',
      GET request ''start_time'', GET request ''end_time'']")
  case False
  then show ?thesis
    by (auto simp: check_session_conflicts_def Let_def truthy_def split: option.splits)
next
  case True
  then obtain t d s e where g: "GET request ''teacher_id'' = Some t"
    "GET request ''day_of_week'' = Some d" "GET request ''start_time'' = Some s"
    "GET request ''end_time'' = Some e"
    by (auto simp: truthy_def split: option.splits)
  show ?thesis
  proof (cases "fst (try_block t d s e (GET request ''exclude_id'') db)")
    case (Inl ex)
    with True g show ?thesis
      by (auto simp: check_session_conflicts_def Let_def split: prod.splits)
  next
    case (Inr r)
    with True g have v: "fst (check_session_conflicts request db) = Inr r"
      by (auto simp: check_session_conflicts_def Let_def split: prod.splits)
    show ?thesis
    proof (cases "has_conflict r")
      case False
      with v show ?thesis by simp
    next
      case c: True
      from try_block_has_conflict [OF Inr c] v True g show ?thesis by simp
    qed
  qed
qed

theorem view_always_responds_witness:
  "fst (check_session_conflicts (query ''POST'' ''1'' ''monday'' ''09:30'' ''10:30'') [monday_9])
     = Inr \<lparr>has_conflict = False, message = Text ''Invalid request''\<rparr> \<and>
   fst (check_session_conflicts (query ''GET'' ''1'' ''monday'' ''9.30'' ''10:30'') [monday_9])
     = Inr \<lparr>has_conflict = False,
            message = Str_of_exception (ValueError_time_data ''9.30'')\<rparr> \<and>
   fst (check_session_conflicts (query ''GET'' ''x'' ''monday'' ''09:30'' ''10:30'') [monday_9])
     = Inr \<lparr>has_conflict = False, message = Str_of_exception (ValueError_field ''x'')\<rparr> \<and>
   fst (check_session_conflicts (query ''GET'' ''7'' ''monday'' ''09:30'' ''10:30'') [monday_9])
     = Inr \<lparr>has_conflict = False, message = Text ''No conflicts found''\<rparr> \<and>
   fst (check_session_conflicts (query ''GET'' ''1'' ''monday'' ''09:30'' ''10:30'') [monday_9])
     = Inr \<lparr>has_conflict = True,
            message = Text ''Conflict with Physics (09:00:00 - 10:00:00)''\<rparr> \<and>
   request_method (query ''GET'' ''1'' ''monday'' ''09:30'' ''10:30'') = ''GET'' \<and>
   (\<exists>y \<in> set [monday_9]. spec_overlap (hm 9 30) (hm 10 30) y)"
proof -
  let ?q = "query ''GET'' ''1'' ''monday'' ''09:30'' ''10:30''"
  have a: "fst (check_session_conflicts (query ''POST'' ''1'' ''monday'' ''09:30'' ''10:30'')
        [monday_9]) = Inr \<lparr>has_conflict = False, message = Text ''Invalid request''\<rparr>"
    by code_simp
  have b: "fst (check_session_conflicts (query ''GET'' ''1'' ''monday'' ''9.30'' ''10:30'')
        [monday_9])
      = Inr \<lparr>has_conflict = False,
             message = Str_of_exception (ValueError_time_data ''9.30'')\<rparr>"
    by code_simp
  have c: "fst (check_session_conflicts (query ''GET'' ''x'' ''monday'' ''09:30'' ''10:30'')
        [monday_9])
      = Inr \<lparr>has_conflict = False, message = Str_of_exception (ValueError_field ''x'')\<rparr>"
    by code_simp
  have d: "fst (check_session_conflicts (query ''GET'' ''7'' ''monday'' ''09:30'' ''10:30'')
        [monday_9])
      = Inr \<lparr>has_conflict = False, message = Text ''No conflicts found''\<rparr>"
    by code_simp
  have e: "fst (check_session_conflicts ?q [monday_9])
      = Inr \<lparr>has_conflict = True,
             message = Text ''Conflict with Physics (09:00:00 - 10:00:00)''\<rparr>"
    by code_simp
  have p: "strptime_HM ''09:30'' = Inr (hm 9 30)" "strptime_HM ''10:30'' = Inr (hm 10 30)"
    by code_simp+
  have g: "GET ?q ''start_time'' = Some ''09:30''" "GET ?q ''end_time'' = Some ''10:30''"
    by (simp_all add: query_def)
  from view_always_responds [of ?q "[monday_9]"] e
  have "request_method ?q = ''GET'' \<and>
     (\<exists>s e start en. GET ?q ''start_time'' = Some s \<and> GET ?q ''end_time'' = Some e \<and>
        strptime_HM s = Inr start \<and> strptime_HM e = Inr en \<and>
        (\<exists>y \<in> set [monday_9]. spec_overlap start en y))"
    by auto
  with g p have "request_method ?q = ''GET'' \<and> (\<exists>y \<in> set [monday_9]. spec_overlap (hm 9 30) (hm 10 30) y)"
    by auto
  with a b c d e show ?thesis by simp
qed

section \<open>Adjacent sessions and the session being edited\<close>

text \<open>
  C5. When every stored scheduled session of the teacher on the date, the excluded one
  apart, is exactly adjacent to the proposed interval (the proposed start is its end, or
  the proposed end is its start), the validation of the form raises nothing and
  \<open>is_conflicting\<close> returns false.
\<close>

theorem adjacent_is_no_conflict:
  assumes "time_lt proposed_start proposed_end"
    and "\<forall>s \<in> set db.
           teacher_pk (teacher s) = teacher_pk t \<and> date s = d \<and> status s = Scheduled \<and>
           pk s \<noteq> excluded \<longrightarrow>
           proposed_start = end_time s \<or> proposed_end = start_time s"
  shows "fst (clean excluded
              \<lparr>cd_teacher = Some t, cd_date = Some d, cd_day_of_week = w,
               cd_start_time = Some proposed_start, cd_end_time = Some proposed_end\<rparr> db)
           = Inr \<lparr>cd_teacher = Some t, cd_date = Some d, cd_day_of_week = w,
               cd_start_time = Some proposed_start, cd_end_time = Some proposed_end\<rparr> \<and>
         \<not> fst (is_conflicting
              \<lparr>pk = excluded, teacher = t, subject = sj, date = d, day_of_week = dw,
               start_time = proposed_start, end_time = proposed_end, status = st\<rparr> db)"
proof -
  from assms(2) have n: "\<not> spec_has_conflict (teacher_pk t) d proposed_start proposed_end excluded db"
    unfolding spec_has_conflict_def using adjacent_no_overlap by blast
  from clean_no_conflict [OF assms(1) n] n show ?thesis
    by (simp add: is_conflicting_iff)
qed

theorem adjacent_is_no_conflict_witness:
  "time_lt (hm 10 0) (hm 11 0) \<and> hm 10 0 = end_time monday_9 \<and>
   fst (clean None (form_data march_4 (hm 10 0) (hm 11 0)) [monday_9])
     = Inr (form_data march_4 (hm 10 0) (hm 11 0)) \<and>
   \<not> fst (is_conflicting
          \<lparr>pk = None, teacher = ann, subject = chemistry, date = march_4,
           day_of_week = ''monday'', start_time = hm 10 0, end_time = hm 11 0,
           status = Scheduled\<rparr> [monday_9])"
proof -
  have wf: "time_lt (hm 10 0) (hm 11 0)"
    by (simp add: time_lt_def time_key_def hm_def)
  have adj: "hm 10 0 = end_time monday_9"
    by (simp add: monday_9_def)
  then have all: "\<forall>s \<in> set [monday_9].
           teacher_pk (teacher s) = teacher_pk ann \<and> date s = march_4 \<and> status s = Scheduled \<and>
           pk s \<noteq> None \<longrightarrow> hm 10 0 = end_time s \<or> hm 11 0 = start_time s"
    by simp
  from adjacent_is_no_conflict [OF wf all, of "Some ''monday''" chemistry "''monday''" Scheduled]
    wf adj
  show ?thesis
    by (simp add: form_data_def)
qed




section \<open>What the form reports and stores on a conflict\<close>

text \<open>
  C7, as the code has it. When the validation of the form raises its conflict error,
  the message names the teacher and gives the start time, the end time and the date of
  the conflicting session, which is the first row of the table that is a scheduled
  session of that teacher and date, is not the session of the form and overlaps the
  proposed interval; and the submission stores nothing: the form is invalid and the
  table is as it was, whatever saving the form would have done.
\<close>

theorem form_conflict_is_reported_and_not_saved:
  assumes "fst (clean instance_pk cd db) = Inl (ValidationError_msg m)"
  shows "\<exists>t d start en before s after.
           cd_teacher cd = Some t \<and> cd_date cd = Some d \<and>
           cd_start_time cd = Some start \<and> cd_end_time cd = Some en \<and>
           db = before @ s # after \<and>
           \<not> spec_has_conflict (teacher_pk t) d start en instance_pk before \<and>
           teacher_pk (teacher s) = teacher_pk t \<and> date s = d \<and>
           status s = Scheduled \<and> pk s \<noteq> instance_pk \<and> spec_overlap start en s \<and>
           m = conflict_message t s \<and>
           sublist (full_name t) m \<and> sublist (str_time (start_time s)) m \<and>
           sublist (str_time (end_time s)) m \<and> sublist (str_date (date s)) m \<and>
           post form_save field_errors instance_pk cd db
             = (Form_invalid (Some (ValidationError_msg m)), db)"
proof -
  from clean_conflict_first [OF assms] obtain t d start en before s after where
    a: "cd_teacher cd = Some t" "cd_date cd = Some d" "cd_start_time cd = Some start"
      "cd_end_time cd = Some en" "db = before @ s # after"
      "\<not> spec_has_conflict (teacher_pk t) d start en instance_pk before"
      "teacher_pk (teacher s) = teacher_pk t" "date s = d" "status s = Scheduled"
      "pk s \<noteq> instance_pk" "spec_overlap start en s" "m = conflict_message t s"
    by blast
  from assms snd_clean [of instance_pk cd db]
  have "clean instance_pk cd db = (Inl (ValidationError_msg m), db)"
    by (metis prod.collapse)
  then have p: "post form_save field_errors instance_pk cd db
      = (Form_invalid (Some (ValidationError_msg m)), db)"
    by (simp add: post_def)
  from a p conflict_message_names [of t s] show ?thesis
    by blast
qed

theorem form_conflict_is_reported_and_not_saved_witness:
  "fst (clean None (form_data march_4 (hm 9 30) (hm 10 30)) [monday_9])
     = Inl (ValidationError_msg
         ''Teacher Ann Lee already has a class scheduled from 09:00:00 to 10:00:00 on 2024-03-04.'') \<and>
   spec_overlap (hm 9 30) (hm 10 30) monday_9 \<and>
   sublist ''09:00:00''
     ''Teacher Ann Lee already has a class scheduled from 09:00:00 to 10:00:00 on 2024-03-04.'' \<and>
   sublist ''10:00:00''
     ''Teacher Ann Lee already has a class scheduled from 09:00:00 to 10:00:00 on 2024-03-04.'' \<and>
   post (\<lambda>instance_pk cd db. Inr (save_new monday_930 db)) False None
       (form_data march_4 (hm 9 30) (hm 10 30)) [monday_9]
     = (Form_invalid (Some (ValidationError_msg
         ''Teacher Ann Lee already has a class scheduled from 09:00:00 to 10:00:00 on 2024-03-04.'')),
        [monday_9])"
proof -
  have e: "fst (clean None (form_data march_4 (hm 9 30) (hm 10 30)) [monday_9])
     = Inl (ValidationError_msg
         ''Teacher Ann Lee already has a class scheduled from 09:00:00 to 10:00:00 on 2024-03-04.'')"
    by code_simp
  have st: "str_time (start_time monday_9) = ''09:00:00''"
    "str_time (end_time monday_9) = ''10:00:00''"
    by code_simp+
  have cd: "cd_start_time (form_data march_4 (hm 9 30) (hm 10 30)) = Some (hm 9 30)"
    "cd_end_time (form_data march_4 (hm 9 30) (hm 10 30)) = Some (hm 10 30)"
    by (simp_all add: form_data_def)
  from form_conflict_is_reported_and_not_saved [OF e,
      of "\<lambda>instance_pk cd db. Inr (save_new monday_930 db)" False]
  obtain before s after where
    "[monday_9] = before @ s # after" "spec_overlap (hm 9 30) (hm 10 30) s"
    "sublist (str_time (start_time s))
       ''Teacher Ann Lee already has a class scheduled from 09:00:00 to 10:00:00 on 2024-03-04.''"
    "sublist (str_time (end_time s))
       ''Teacher Ann Lee already has a class scheduled from 09:00:00 to 10:00:00 on 2024-03-04.''"
    "post (\<lambda>instance_pk cd db. Inr (save_new monday_930 db)) False None
       (form_data march_4 (hm 9 30) (hm 10 30)) [monday_9]
     = (Form_invalid (Some (ValidationError_msg
         ''Teacher Ann Lee already has a class scheduled from 09:00:00 to 10:00:00 on 2024-03-04.'')),
        [monday_9])"
    using cd by auto
  moreover from this(1) have "s = monday_9"
    by (cases before) auto
  ultimately show ?thesis
    using e st by simp
qed

text \<open>
  C7, as the claim states it, fails on the subject: the message of the form does not
  contain the subject of the conflicting session, and is the same when that session has
  another subject.
\<close>

theorem form_message_counterexample:
  "fst (clean None (form_data march_4 (hm 9 30) (hm 10 30)) [monday_9])
     = Inl (ValidationError_msg
         ''Teacher Ann Lee already has a class scheduled from 09:00:00 to 10:00:00 on 2024-03-04.'') \<and>
   subject_name (subject monday_9) = ''Physics'' \<and>
   \<not> sublist ''Physics''
       ''Teacher Ann Lee already has a class scheduled from 09:00:00 to 10:00:00 on 2024-03-04.'' \<and>
   fst (clean None (form_data march_4 (hm 9 30) (hm 10 30)) [monday_9\<lparr>subject := chemistry\<rparr>])
     = fst (clean None (form_data march_4 (hm 9 30) (hm 10 30)) [monday_9])"
  by code_simp

section \<open>The seeding commands\<close>

text \<open>
  C8. On every list of candidates and every proposed interval, the filter of the
  seeding commands (\<open>start_time < proposed_end\<close> and \<open>end_time > proposed_start\<close>)
  finds a row exactly when the loop of the form raises its error and exactly when the
  loop of the view reports a conflict; so the conflict query of the seeding commands
  agrees with both loops on the stored scheduled sessions of a teacher and date.
\<close>

theorem seeding_filter_is_the_overlap_test:
  "(filter (\<lambda>s. time_lt (start_time s) proposed_end \<and> time_gt (end_time s) proposed_start)
       candidates \<noteq> [])
     = (clean_loop t proposed_start proposed_end candidates \<noteq> None) \<and>
   (filter (\<lambda>s. time_lt (start_time s) proposed_end \<and> time_gt (end_time s) proposed_start)
       candidates \<noteq> [])
     = has_conflict (conflicts_loop proposed_start proposed_end candidates) \<and>
   (fst (existing_conflicts t d proposed_start proposed_end db) \<noteq> [])
     = (clean_loop t proposed_start proposed_end
          (filter (\<lambda>s. teacher_pk (teacher s) = teacher_pk t \<and> date s = d \<and>
                       status s = Scheduled) db) \<noteq> None) \<and>
   (fst (existing_conflicts t d proposed_start proposed_end db) \<noteq> [])
     = has_conflict (conflicts_loop proposed_start proposed_end
          (filter (\<lambda>s. teacher_pk (teacher s) = teacher_pk t \<and> date s = d \<and>
                       status s = Scheduled) db))"
  by (auto simp: existing_conflicts_def select_def clean_loop_None_iff
      conflicts_loop_has_conflict spec_overlap_def time_gt_iff filter_empty_conv)

theorem seeding_filter_is_the_overlap_test_witness:
  "fst (existing_conflicts ann march_4 (hm 9 30) (hm 10 30) [monday_9]) \<noteq> [] \<and>
   clean_loop ann (hm 9 30) (hm 10 30)
     (filter (\<lambda>s. teacher_pk (teacher s) = teacher_pk ann \<and> date s = march_4 \<and>
                  status s = Scheduled) [monday_9]) \<noteq> None \<and>
   has_conflict (conflicts_loop (hm 9 30) (hm 10 30)
     (filter (\<lambda>s. teacher_pk (teacher s) = teacher_pk ann \<and> date s = march_4 \<and>
                  status s = Scheduled) [monday_9]))"
proof -
  have c: "fst (existing_conflicts ann march_4 (hm 9 30) (hm 10 30) [monday_9]) \<noteq> []"
    by code_simp
  from seeding_filter_is_the_overlap_test [where proposed_start = "hm 9 30"
      and proposed_end = "hm 10 30" and candidates = "[]" and t = ann and d = march_4
      and db = "[monday_9]"]
    c
  show ?thesis
    by simp
qed




text \<open>
  So neither command brings a conflict into a table that had none.
\<close>

lemma clash_sym: "clash a b \<longleftrightarrow> clash b a"
  by (auto simp: clash_def spec_overlap_def)

lemma conflict_free_insert_row:
  "conflict_free (insert_row s db) \<longleftrightarrow> conflict_free db \<and> (\<forall>y \<in> set db. \<not> clash s y)"
proof (induction db)
  case Nil
  then show ?case by simp
next
  case (Cons x xs)
  then show ?case
    using clash_sym [of s x] by (auto simp: set_insert_row)
qed

lemma spec_seed_conflict_free:
  assumes "conflict_free db"
  shows "conflict_free (spec_seed c db)"
proof (cases "spec_candidate_conflicts (fst c) (snd c) db")
  case True
  with assms show ?thesis
    by (simp add: spec_seed_def)
next
  case False
  then have "\<forall>y \<in> set db. \<not> clash ((new_session (fst c) (snd c))\<lparr>pk := Some (next_pk db)\<rparr>) y"
    by (auto simp: spec_candidate_conflicts_def clash_def new_session_def)
  with assms False show ?thesis
    by (simp add: spec_seed_def save_new_def conflict_free_insert_row)
qed

lemma fold_spec_seed_conflict_free:
  "conflict_free db \<Longrightarrow> conflict_free (fold spec_seed cs db)"
  by (induction cs arbitrary: db) (simp_all add: spec_seed_conflict_free)

lemma create_sessions_conflict_free:
  "conflict_free db \<Longrightarrow> conflict_free (create_sessions teachers subjects draws db)"
  by (simp add: create_sessions_def create_sessions_loop_fold fold_spec_seed_conflict_free)

lemma teacher_loop_conflict_free:
  assumes "conflict_free db"
  shows "conflict_free (fst (teacher_loop n t ds 0 0 db))"
proof -
  have z: "(0::nat) \<le> n" "(0::nat) \<le> n * 3"
    by simp_all
  from teacher_loop_runs [OF z, of t ds db] obtain k where
    "fst (teacher_loop n t ds 0 0 db) = fold spec_seed (map (\<lambda>i. (t, ds i)) [0..<0 + k]) db"
    by blast
  with assms show ?thesis
    by (simp add: fold_spec_seed_conflict_free)
qed

lemma create_sessions_per_teacher_conflict_free:
  "conflict_free db \<Longrightarrow>
     conflict_free (fst (create_sessions_per_teacher n ts db total_sessions))"
proof (induction n ts db total_sessions rule: create_sessions_per_teacher.induct)
  case (1 n db total_sessions)
  then show ?case by simp
next
  case (2 n t ds rest db total_sessions)
  from teacher_loop_conflict_free [OF "2.prems", of n t ds] "2.IH" show ?case
    by (simp split: prod.splits) (metis fst_conv)
qed

section \<open>The checks only read\<close>

text \<open>
  C10. \<open>is_conflicting\<close>, the validation of the form and the view hand the table of
  stored sessions back as they found it, whatever they answer.
\<close>

theorem checks_leave_table_unchanged:
  "snd (is_conflicting self db) = db \<and> snd (clean instance_pk cd db) = db \<and>
   snd (check_session_conflicts request db) = db"
proof -
  have "snd (check_session_conflicts request db) = db"
    by (auto simp: check_session_conflicts_def Let_def split: option.splits prod.splits sum.splits
        dest: try_block_table)
  then show ?thesis
    by (simp add: is_conflicting_def clean_def select_def split: option.splits)
qed

theorem checks_leave_table_unchanged_witness:
  "snd (is_conflicting monday_930 [monday_9]) = [monday_9] \<and>
   snd (clean None (form_data march_4 (hm 9 30) (hm 10 30)) [monday_9]) = [monday_9] \<and>
   snd (check_session_conflicts (query ''GET'' ''1'' ''monday'' ''09:30'' ''10:30'') [monday_9])
     = [monday_9]"
  using checks_leave_table_unchanged [of monday_930 "[monday_9]" None
      "form_data march_4 (hm 9 30) (hm 10 30)"
      "query ''GET'' ''1'' ''monday'' ''09:30'' ''10:30''"]
  by simp

end
